theory Spec2Isabelle
  imports Complex_Main "HOL-Library.Stream"
begin

section \<open>The game of main.py: data model\<close>

text \<open>
  Python floats are modelled as \<^typ>\<open>real\<close> (no rounding, no infinities, no NaN), Python
  integers as \<^typ>\<open>int\<close>. The coordinates of a \<^verbatim>\<open>pygame.Rect\<close> are integers; the
  model does not bound them.
\<close>

subsection \<open>Game settings\<close>

abbreviation SCREEN_WIDTH :: int where "SCREEN_WIDTH \<equiv> 800"
abbreviation SCREEN_HEIGHT :: int where "SCREEN_HEIGHT \<equiv> 600"
abbreviation PLAYER_SIZE :: int where "PLAYER_SIZE \<equiv> 40"
abbreviation PLAYER_SPEED :: int where "PLAYER_SPEED \<equiv> 300"
abbreviation ENEMY_RADIUS :: int where "ENEMY_RADIUS \<equiv> 25"
abbreviation ENEMY_SPEED :: int where "ENEMY_SPEED \<equiv> 180"
abbreviation COIN_RADIUS :: int where "COIN_RADIUS \<equiv> 7"
abbreviation NUM_COINS :: nat where "NUM_COINS \<equiv> 5"
abbreviation START_TIME :: int where "START_TIME \<equiv> 45"
abbreviation WIN_SCORE :: int where "WIN_SCORE \<equiv> 20"

subsection \<open>Python and pygame primitives\<close>

text \<open>\<^verbatim>\<open>int(x)\<close> on a float: truncation toward zero.\<close>

definition py_int :: "real \<Rightarrow> int" where
  "py_int x = (if x < 0 then \<lceil>x\<rceil> else \<lfloor>x\<rfloor>)"

text \<open>
  \<^verbatim>\<open>pygame.Rect\<close>: top-left corner and size. \<^verbatim>\<open>x\<close> and \<^verbatim>\<open>left\<close> name the same
  attribute, as do \<^verbatim>\<open>y\<close> and \<^verbatim>\<open>top\<close>; the other attributes are derived.
\<close>

record pyrect =
  rect_left :: int
  rect_top :: int
  rect_width :: int
  rect_height :: int

definition rect_right :: "pyrect \<Rightarrow> int" where
  "rect_right r = rect_left r + rect_width r"

definition rect_bottom :: "pyrect \<Rightarrow> int" where
  "rect_bottom r = rect_top r + rect_height r"

definition rect_centerx :: "pyrect \<Rightarrow> int" where
  "rect_centerx r = rect_left r + rect_width r div 2"

definition rect_centery :: "pyrect \<Rightarrow> int" where
  "rect_centery r = rect_top r + rect_height r div 2"

text \<open>Assigning \<^verbatim>\<open>rect.center = (x, y)\<close> moves the rectangle and keeps its size.\<close>

definition rect_set_center :: "pyrect \<Rightarrow> int \<Rightarrow> int \<Rightarrow> pyrect" where
  "rect_set_center r cx cy =
     r\<lparr>rect_left := cx - rect_width r div 2, rect_top := cy - rect_height r div 2\<rparr>"

text \<open>
  The random source is a stream of raw draws. \<^verbatim>\<open>random.randint(a, b)\<close> returns an
  integer of the closed interval from \<open>a\<close> to \<open>b\<close>, \<^verbatim>\<open>random.random()\<close> a float of
  the half-open unit interval; each consumes one draw.
\<close>

type_synonym rng = "nat stream"

definition randint :: "int \<Rightarrow> int \<Rightarrow> rng \<Rightarrow> int \<times> rng" where
  "randint a b g = (a + int (shd g mod nat (b - a + 1)), stl g)"

definition py_random :: "rng \<Rightarrow> real \<times> rng" where
  "py_random g = (real (shd g mod 2 ^ 53) / 2 ^ 53, stl g)"

text \<open>The snapshot of held keys that \<^verbatim>\<open>Player.update\<close> reads.\<close>

record keys =
  K_LEFT :: bool
  K_a :: bool
  K_RIGHT :: bool
  K_d :: bool
  K_UP :: bool
  K_w :: bool
  K_DOWN :: bool
  K_s :: bool

subsection \<open>Helper functions\<close>

definition clamp :: "'a::linorder \<Rightarrow> 'a \<Rightarrow> 'a \<Rightarrow> 'a" where
  "clamp val minv maxv = max minv (min val maxv)"

definition rect_circle_collide :: "pyrect \<Rightarrow> real \<times> real \<Rightarrow> real \<Rightarrow> bool" where
  "rect_circle_collide r circle_pos circle_radius =
     (let closest_x = clamp (fst circle_pos) (of_int (rect_left r)) (of_int (rect_right r));
          closest_y = clamp (snd circle_pos) (of_int (rect_top r)) (of_int (rect_bottom r));
          dx = fst circle_pos - closest_x;
          dy = snd circle_pos - closest_y
      in dx * dx + dy * dy \<le> circle_radius * circle_radius)"

subsection \<open>Player\<close>

record player =
  rect :: pyrect

definition Player_init :: "int \<Rightarrow> int \<Rightarrow> player" where
  "Player_init x y =
     \<lparr>rect = rect_set_center
        \<lparr>rect_left = 0, rect_top = 0, rect_width = PLAYER_SIZE, rect_height = PLAYER_SIZE\<rparr> x y\<rparr>"

definition Player_update :: "player \<Rightarrow> real \<Rightarrow> keys \<Rightarrow> player" where
  "Player_update self dt ks =
     (let dx0 = (0::int);
          dy0 = (0::int);
          dx1 = (if K_LEFT ks \<or> K_a ks then dx0 - 1 else dx0);
          dx2 = (if K_RIGHT ks \<or> K_d ks then dx1 + 1 else dx1);
          dy1 = (if K_UP ks \<or> K_w ks then dy0 - 1 else dy0);
          dy2 = (if K_DOWN ks \<or> K_s ks then dy1 + 1 else dy1);
          factor = (70710678 / 100000000 :: real);
          dx = (if dx2 \<noteq> 0 \<and> dy2 \<noteq> 0 then of_int dx2 * factor else of_int dx2);
          dy = (if dx2 \<noteq> 0 \<and> dy2 \<noteq> 0 then of_int dy2 * factor else of_int dy2);
          r1 = rect self;
          r2 = r1\<lparr>rect_left := rect_left r1 + py_int (dx * of_int PLAYER_SPEED * dt)\<rparr>;
          r3 = r2\<lparr>rect_top := rect_top r2 + py_int (dy * of_int PLAYER_SPEED * dt)\<rparr>;
          r4 = r3\<lparr>rect_left := clamp (rect_left r3) 0 (SCREEN_WIDTH - rect_width r3)\<rparr>;
          r5 = r4\<lparr>rect_top := clamp (rect_top r4) 0 (SCREEN_HEIGHT - rect_height r4)\<rparr>
      in self\<lparr>rect := r5\<rparr>)"

subsection \<open>Enemy\<close>

record enemy =
  enemy_x :: real
  enemy_y :: real
  enemy_vx :: real
  enemy_vy :: real

definition Enemy_init :: "rng \<Rightarrow> enemy \<times> rng" where
  "Enemy_init g =
     (let (x, g1) = randint ENEMY_RADIUS (SCREEN_WIDTH - ENEMY_RADIUS) g;
          (y, g2) = randint ENEMY_RADIUS (SCREEN_HEIGHT - ENEMY_RADIUS) g1;
          (u, g3) = py_random g2;
          angle = u * 2 * (314159265 / 100000000)
      in (\<lparr>enemy_x = of_int x, enemy_y = of_int y,
           enemy_vx = of_int ENEMY_SPEED * cos angle,
           enemy_vy = of_int ENEMY_SPEED * sin angle\<rparr>, g3))"

definition Enemy_update :: "enemy \<Rightarrow> real \<Rightarrow> enemy" where
  "Enemy_update self dt =
     (let e1 = self\<lparr>enemy_x := enemy_x self + enemy_vx self * dt\<rparr>;
          e2 = e1\<lparr>enemy_y := enemy_y e1 + enemy_vy e1 * dt\<rparr>;
          e3 = (if enemy_x e2 \<le> of_int ENEMY_RADIUS
                then e2\<lparr>enemy_x := of_int ENEMY_RADIUS, enemy_vx := enemy_vx e2 * (- 1)\<rparr>
                else e2);
          e4 = (if enemy_x e3 \<ge> of_int (SCREEN_WIDTH - ENEMY_RADIUS)
                then e3\<lparr>enemy_x := of_int (SCREEN_WIDTH - ENEMY_RADIUS),
                        enemy_vx := enemy_vx e3 * (- 1)\<rparr>
                else e3);
          e5 = (if enemy_y e4 \<le> of_int ENEMY_RADIUS
                then e4\<lparr>enemy_y := of_int ENEMY_RADIUS, enemy_vy := enemy_vy e4 * (- 1)\<rparr>
                else e4);
          e6 = (if enemy_y e5 \<ge> of_int (SCREEN_HEIGHT - ENEMY_RADIUS)
                then e5\<lparr>enemy_y := of_int (SCREEN_HEIGHT - ENEMY_RADIUS),
                        enemy_vy := enemy_vy e5 * (- 1)\<rparr>
                else e5)
      in e6)"

subsection \<open>Coin\<close>

record coin =
  coin_x :: int
  coin_y :: int
  collected :: bool

definition Coin_respawn :: "coin \<Rightarrow> rng \<Rightarrow> coin \<times> rng" where
  "Coin_respawn self g =
     (let margin = (20::int);
          (x, g1) = randint margin (SCREEN_WIDTH - margin) g;
          (y, g2) = randint margin (SCREEN_HEIGHT - margin) g1
      in (self\<lparr>coin_x := x, coin_y := y, collected := False\<rparr>, g2))"

text \<open>
  \<^verbatim>\<open>Coin.__init__\<close> only calls \<^verbatim>\<open>respawn\<close>, which sets every attribute; the record it
  starts from is never read.
\<close>

definition Coin_init :: "rng \<Rightarrow> coin \<times> rng" where
  "Coin_init g = Coin_respawn \<lparr>coin_x = 0, coin_y = 0, collected = False\<rparr> g"

section \<open>The session of run_game\<close>

text \<open>
  The local variables of \<^verbatim>\<open>run_game\<close> that outlive a frame, and the random source.
  The outcome is held in two independent flags: \<^verbatim>\<open>game_over\<close> and \<^verbatim>\<open>game_won\<close>.
\<close>

record session =
  player :: player
  enemy :: enemy
  coins :: "coin list"
  score :: int
  elapsed_survival :: real
  time_left :: real
  game_over :: bool
  game_won :: bool
  rng :: rng

text \<open>\<^verbatim>\<open>[Coin() for _ in range(NUM_COINS)]\<close>\<close>

fun make_coins :: "nat \<Rightarrow> rng \<Rightarrow> coin list \<times> rng" where
  "make_coins 0 g = ([], g)"
| "make_coins (Suc n) g =
     (let (c, g1) = Coin_init g;
          (cs, g2) = make_coins n g1
      in (c # cs, g2))"

subsection \<open>fix_coins_initial\<close>

text \<open>The condition of the inner \<^verbatim>\<open>while\<close> loop of \<^verbatim>\<open>fix_coins_initial\<close>.\<close>

definition too_close :: "player \<Rightarrow> coin \<Rightarrow> bool" where
  "too_close p c =
     (\<bar>coin_x c - rect_centerx (rect p)\<bar> < 60 \<and> \<bar>coin_y c - rect_centery (rect p)\<bar> < 60)"

text \<open>
  The inner loop, for one coin. It has no attempt cap: on a random source that keeps
  drawing positions near the player it does not return, which is the value \<open>None\<close>.
\<close>

partial_function (option) fix_coin :: "player \<Rightarrow> coin \<Rightarrow> rng \<Rightarrow> (coin \<times> rng) option" where
  "fix_coin p c g =
     (if too_close p c
      then fix_coin p (fst (Coin_respawn c g)) (snd (Coin_respawn c g))
      else Some (c, g))"

fun fix_coins_initial :: "player \<Rightarrow> coin list \<Rightarrow> rng \<Rightarrow> (coin list \<times> rng) option" where
  "fix_coins_initial p [] g = Some ([], g)"
| "fix_coins_initial p (c # cs) g =
     (case fix_coin p c g of
        None \<Rightarrow> None
      | Some (c', g1) \<Rightarrow>
          (case fix_coins_initial p cs g1 of
             None \<Rightarrow> None
           | Some (cs', g2) \<Rightarrow> Some (c' # cs', g2)))"

subsection \<open>Start and restart\<close>

text \<open>Lines 158 to 173: the objects and counters a session starts from.\<close>

definition new_game :: "rng \<Rightarrow> session option" where
  "new_game g =
     (let p = Player_init (SCREEN_WIDTH div 2) (SCREEN_HEIGHT div 2);
          (e, g1) = Enemy_init g;
          (cs, g2) = make_coins NUM_COINS g1
      in case fix_coins_initial p cs g2 of
           None \<Rightarrow> None
         | Some (cs', g3) \<Rightarrow>
             Some \<lparr>player = p, enemy = e, coins = cs', score = 0, elapsed_survival = 0,
                   time_left = of_int START_TIME, game_over = False, game_won = False,
                   rng = g3\<rparr>)"

text \<open>
  Lines 187 to 197: the \<^verbatim>\<open>K_r\<close> key-down event. It acts only when one of the two flags
  is set, and then rebuilds everything as at the start.
\<close>

definition restart :: "session \<Rightarrow> session option" where
  "restart s = (if game_over s \<or> game_won s then new_game (rng s) else Some s)"

subsection \<open>The per-frame update\<close>

text \<open>Lines 217 to 224, for one coin.\<close>

definition collect_coin :: "player \<Rightarrow> coin \<Rightarrow> coin" where
  "collect_coin p c =
     (if \<not> collected c
      then (let px = rect_centerx (rect p);
                py = rect_centery (rect p);
                dx = px - coin_x c;
                dy = py - coin_y c
            in if dx * dx + dy * dy \<le> (COIN_RADIUS + PLAYER_SIZE div 2) ^ 2
               then c\<lparr>collected := True\<rparr>
               else c)
      else c)"

text \<open>Lines 229 and 230: every coin respawns, in order, from the same random source.\<close>

fun respawn_all :: "coin list \<Rightarrow> rng \<Rightarrow> coin list \<times> rng" where
  "respawn_all [] g = ([], g)"
| "respawn_all (c # cs) g =
     (let (c', g1) = Coin_respawn c g;
          (cs', g2) = respawn_all cs g1
      in (c' # cs', g2))"

text \<open>Lines 201 to 246: one pass of the loop body over the game state.\<close>

definition update_frame :: "real \<Rightarrow> keys \<Rightarrow> session \<Rightarrow> session" where
  "update_frame dt ks s =
     (if \<not> (game_over s \<or> game_won s)
      then
        (let p = Player_update (player s) dt ks;
             e = Enemy_update (enemy s) dt;
             el = elapsed_survival s + dt;
             tl = time_left s - dt;
             sc = py_int el + int (length (filter collected (coins s)));
             cs1 = map (collect_coin p) (coins s);
             (cs2, g) = (if list_all collected cs1 then respawn_all cs1 (rng s)
                         else (cs1, rng s));
             over1 = (if rect_circle_collide (rect p) (enemy_x e, enemy_y e)
                            (of_int ENEMY_RADIUS)
                      then True else game_over s);
             (over2, won2) = (if tl \<le> 0
                              then (if sc \<ge> WIN_SCORE then (over1, True)
                                    else (True, game_won s))
                              else (over1, game_won s));
             won3 = (if sc \<ge> WIN_SCORE then True else won2)
         in \<lparr>player = p, enemy = e, coins = cs2, score = sc, elapsed_survival = el,
             time_left = tl, game_over = over2, game_won = won3, rng = g\<rparr>)
      else s)"

section \<open>Sequences of calls\<close>

text \<open>
  The states after each call of a sequence of \<^verbatim>\<open>Player.update\<close> calls, and of a
  sequence of \<^verbatim>\<open>Enemy.update\<close> calls.
\<close>

fun player_trace :: "player \<Rightarrow> (real \<times> keys) list \<Rightarrow> player list" where
  "player_trace p [] = []"
| "player_trace p (call # calls) =
     Player_update p (fst call) (snd call)
       # player_trace (Player_update p (fst call) (snd call)) calls"

fun enemy_trace :: "enemy \<Rightarrow> real list \<Rightarrow> enemy list" where
  "enemy_trace e [] = []"
| "enemy_trace e (dt # dts) = Enemy_update e dt # enemy_trace (Enemy_update e dt) dts"

section \<open>Concrete inputs\<close>

definition no_keys :: keys where
  "no_keys = \<lparr>K_LEFT = False, K_a = False, K_RIGHT = False, K_d = False,
              K_UP = False, K_w = False, K_DOWN = False, K_s = False\<rparr>"

definition right_down_keys :: keys where
  "right_down_keys = \<lparr>K_LEFT = False, K_a = False, K_RIGHT = True, K_d = False,
                      K_UP = False, K_w = False, K_DOWN = False, K_s = True\<rparr>"

definition sample_enemy :: enemy where
  "sample_enemy = \<lparr>enemy_x = 700, enemy_y = 100, enemy_vx = 108, enemy_vy = - 144\<rparr>"

definition far_coins :: "coin list" where
  "far_coins = [\<lparr>coin_x = 100, coin_y = 100, collected = False\<rparr>,
                \<lparr>coin_x = 700, coin_y = 100, collected = False\<rparr>,
                \<lparr>coin_x = 100, coin_y = 500, collected = False\<rparr>,
                \<lparr>coin_x = 700, coin_y = 500, collected = False\<rparr>,
                \<lparr>coin_x = 400, coin_y = 100, collected = False\<rparr>]"

definition moved_player :: player where
  "moved_player =
     \<lparr>rect = \<lparr>rect_left = 100, rect_top = 100, rect_width = 40, rect_height = 40\<rparr>\<rparr>"

text \<open>
  The player stands at the centre, the enemy comes from the right at full speed and is
  26 pixels from the rectangle's edge (no overlap yet); 19.99 seconds have passed.
\<close>

definition tie_session :: session where
  "tie_session =
     \<lparr>player = Player_init 400 300,
      enemy = \<lparr>enemy_x = 446, enemy_y = 300, enemy_vx = - 180, enemy_vy = 0\<rparr>,
      coins = far_coins, score = 19, elapsed_survival = 1999 / 100, time_left = 2501 / 100,
      game_over = False, game_won = False, rng = sconst 0\<rparr>"

text \<open>The player's centre is at (120, 120); the first coin lies within reach of it.\<close>

definition lag_session :: session where
  "lag_session =
     \<lparr>player = moved_player, enemy = sample_enemy,
      coins = [\<lparr>coin_x = 120, coin_y = 130, collected = False\<rparr>,
               \<lparr>coin_x = 700, coin_y = 100, collected = False\<rparr>,
               \<lparr>coin_x = 100, coin_y = 500, collected = False\<rparr>,
               \<lparr>coin_x = 700, coin_y = 500, collected = False\<rparr>,
               \<lparr>coin_x = 400, coin_y = 100, collected = False\<rparr>],
      score = 3, elapsed_survival = 7 / 2, time_left = 83 / 2,
      game_over = False, game_won = False, rng = sconst 0\<rparr>"

text \<open>As before, with the four other coins already collected.\<close>

definition batch_session :: session where
  "batch_session =
     \<lparr>player = moved_player, enemy = sample_enemy,
      coins = [\<lparr>coin_x = 120, coin_y = 130, collected = False\<rparr>,
               \<lparr>coin_x = 700, coin_y = 100, collected = True\<rparr>,
               \<lparr>coin_x = 100, coin_y = 500, collected = True\<rparr>,
               \<lparr>coin_x = 700, coin_y = 500, collected = True\<rparr>,
               \<lparr>coin_x = 400, coin_y = 100, collected = True\<rparr>],
      score = 7, elapsed_survival = 7 / 2, time_left = 83 / 2,
      game_over = False, game_won = False,
      rng = [311, 207, 45, 518, 699, 12, 400, 333, 90, 480] @- sconst 0\<rparr>"

text \<open>Two sessions with a hundredth of a second left, of score 5 and of score 25.\<close>

definition timeout_loss_session :: session where
  "timeout_loss_session =
     \<lparr>player = moved_player, enemy = sample_enemy, coins = far_coins,
      score = 5, elapsed_survival = 11 / 2, time_left = 1 / 100,
      game_over = False, game_won = False, rng = sconst 0\<rparr>"

definition timeout_win_session :: session where
  "timeout_win_session =
     \<lparr>player = moved_player, enemy = sample_enemy,
      coins = [\<lparr>coin_x = 100, coin_y = 500, collected = False\<rparr>,
               \<lparr>coin_x = 700, coin_y = 100, collected = True\<rparr>,
               \<lparr>coin_x = 100, coin_y = 500, collected = True\<rparr>,
               \<lparr>coin_x = 700, coin_y = 500, collected = True\<rparr>,
               \<lparr>coin_x = 400, coin_y = 100, collected = True\<rparr>],
      score = 25, elapsed_survival = 2099 / 100, time_left = 1 / 100,
      game_over = False, game_won = False, rng = sconst 0\<rparr>"

text \<open>
  A lost session. Its random source makes the first new coin land on the centre of the
  screen, (400, 300), so that \<^verbatim>\<open>fix_coins_initial\<close> has to move it.
\<close>

definition lost_session :: session where
  "lost_session =
     \<lparr>player = moved_player, enemy = sample_enemy, coins = far_coins,
      score = 12, elapsed_survival = 123 / 10, time_left = 327 / 10,
      game_over = True, game_won = False,
      rng = [0, 0, 0, 380, 280, 100, 200, 300, 400, 500, 100, 700, 500, 55, 66] @- sconst 0\<rparr>"

section \<open>Random sources on which the placement loop ends\<close>

text \<open>
  The loop of \<^verbatim>\<open>fix_coins_initial\<close> ends when a respawn lands outside the 60 pixel box
  around the player. A random source is fair for a player when, from every point of the
  stream on, some later respawn does.
\<close>

definition rng_fair :: "player \<Rightarrow> rng \<Rightarrow> bool" where
  "rng_fair p g = (\<forall>k. \<exists>n. \<not> too_close p (fst (Coin_init (sdrop (k + 2 * n) g))))"

section \<open>Geometry helpers\<close>

lemma clamp_lower: "minv \<le> clamp v minv maxv"
  by (simp add: clamp_def)

lemma clamp_upper: "minv \<le> maxv \<Longrightarrow> clamp v minv maxv \<le> maxv"
  by (simp add: clamp_def)

text \<open>
  C9: \<^verbatim>\<open>clamp\<close> returns a value for every input, and when \<open>minv > maxv\<close> that value is
  \<open>minv\<close>: the lower bound wins over the upper one.
\<close>

theorem clamp_lower_bound_dominates:
  "maxv < minv \<Longrightarrow> clamp v minv maxv = minv"
  by (auto simp add: clamp_def max_def min_def)

theorem clamp_lower_bound_dominates_witness:
  "(0::int) < 10 \<and> clamp (5::int) 10 0 = 10 \<and> clamp (- 3::int) 10 0 = 10
     \<and> clamp (99::int) 10 0 = 10"
  using clamp_lower_bound_dominates [of "0::int" 10 5]
    clamp_lower_bound_dominates [of "0::int" 10 "- 3"]
    clamp_lower_bound_dominates [of "0::int" 10 99]
  by simp

section \<open>Player\<close>

lemma Player_update_rect:
  "\<exists>a b. rect (Player_update p dt ks) =
     (rect p)\<lparr>rect_left := clamp a 0 (SCREEN_WIDTH - rect_width (rect p)),
              rect_top := clamp b 0 (SCREEN_HEIGHT - rect_height (rect p))\<rparr>"
  unfolding Player_update_def Let_def
  apply (simp split del: if_split)
  apply (rule exI, rule exI, rule refl)
  done

lemma Player_update_size:
  "rect_width (rect (Player_update p dt ks)) = rect_width (rect p)"
  "rect_height (rect (Player_update p dt ks)) = rect_height (rect p)"
  using Player_update_rect [of p dt ks] by auto

lemma Player_update_inside:
  assumes "rect_width (rect p) = PLAYER_SIZE" and "rect_height (rect p) = PLAYER_SIZE"
  shows "0 \<le> rect_left (rect (Player_update p dt ks))"
    and "rect_left (rect (Player_update p dt ks)) + PLAYER_SIZE \<le> SCREEN_WIDTH"
    and "0 \<le> rect_top (rect (Player_update p dt ks))"
    and "rect_top (rect (Player_update p dt ks)) + PLAYER_SIZE \<le> SCREEN_HEIGHT"
proof -
  obtain a b where r: "rect (Player_update p dt ks) =
     (rect p)\<lparr>rect_left := clamp a 0 (SCREEN_WIDTH - rect_width (rect p)),
              rect_top := clamp b 0 (SCREEN_HEIGHT - rect_height (rect p))\<rparr>"
    using Player_update_rect by blast
  have up: "clamp a 0 760 \<le> (760::int)" "clamp b 0 560 \<le> (560::int)"
    by (simp_all add: clamp_upper)
  have lo: "0 \<le> clamp a (0::int) 760" "0 \<le> clamp b (0::int) 560"
    by (simp_all add: clamp_lower)
  show "0 \<le> rect_left (rect (Player_update p dt ks))"
    using lo by (simp add: r assms)
  show "rect_left (rect (Player_update p dt ks)) + PLAYER_SIZE \<le> SCREEN_WIDTH"
    using up by (simp add: r assms)
  show "0 \<le> rect_top (rect (Player_update p dt ks))"
    using lo by (simp add: r assms)
  show "rect_top (rect (Player_update p dt ks)) + PLAYER_SIZE \<le> SCREEN_HEIGHT"
    using up by (simp add: r assms)
qed

lemma Player_init_size:
  "rect_width (rect (Player_init x y)) = PLAYER_SIZE"
  "rect_height (rect (Player_init x y)) = PLAYER_SIZE"
  by (simp_all add: Player_init_def rect_set_center_def)

lemma player_trace_size:
  "q \<in> set (player_trace p calls) \<Longrightarrow>
     rect_width (rect q) = rect_width (rect p) \<and> rect_height (rect q) = rect_height (rect p)"
proof (induction calls arbitrary: p)
  case Nil
  then show ?case by simp
next
  case (Cons call calls)
  let ?p' = "Player_update p (fst call) (snd call)"
  from Cons.prems have "q = ?p' \<or> q \<in> set (player_trace ?p' calls)"
    by simp
  then show ?case
  proof
    assume "q = ?p'"
    then show ?thesis by (simp add: Player_update_size)
  next
    assume "q \<in> set (player_trace ?p' calls)"
    from Cons.IH [OF this] show ?thesis by (simp add: Player_update_size)
  qed
qed

lemma player_trace_inside:
  assumes "rect_width (rect p) = PLAYER_SIZE" and "rect_height (rect p) = PLAYER_SIZE"
    and "q \<in> set (player_trace p calls)"
  shows "0 \<le> rect_left (rect q) \<and> rect_left (rect q) + PLAYER_SIZE \<le> SCREEN_WIDTH
       \<and> 0 \<le> rect_top (rect q) \<and> rect_top (rect q) + PLAYER_SIZE \<le> SCREEN_HEIGHT"
  using assms
proof (induction calls arbitrary: p)
  case Nil
  then show ?case by simp
next
  case (Cons call calls)
  let ?p' = "Player_update p (fst call) (snd call)"
  have size': "rect_width (rect ?p') = PLAYER_SIZE" "rect_height (rect ?p') = PLAYER_SIZE"
    using Cons.prems(1,2) by (simp_all add: Player_update_size)
  from Cons.prems(3) have "q = ?p' \<or> q \<in> set (player_trace ?p' calls)"
    by simp
  then show ?case
  proof
    assume "q = ?p'"
    then show ?thesis
      using Player_update_inside [OF Cons.prems(1,2), of "fst call" "snd call"] by simp
  next
    assume "q \<in> set (player_trace ?p' calls)"
    from Cons.IH [OF size' this] show ?thesis .
  qed
qed

text \<open>
  C5: from the player created at the centre of the screen, after every call of any
  sequence of \<^verbatim>\<open>Player.update\<close> calls (any \<open>dt\<close>, so every \<open>dt \<ge> 0\<close>, and any keys) the
  rectangle lies inside the 800 by 600 screen: \<open>0 \<le> left\<close>, \<open>left + width \<le> 800\<close>,
  \<open>0 \<le> top\<close> and \<open>top + height \<le> 600\<close>.
\<close>

theorem Player_update_containment:
  "\<forall>q \<in> set (player_trace (Player_init (SCREEN_WIDTH div 2) (SCREEN_HEIGHT div 2)) calls).
     0 \<le> rect_left (rect q) \<and> rect_left (rect q) + rect_width (rect q) \<le> SCREEN_WIDTH
     \<and> 0 \<le> rect_top (rect q) \<and> rect_top (rect q) + rect_height (rect q) \<le> SCREEN_HEIGHT"
proof
  fix q
  let ?p = "Player_init (SCREEN_WIDTH div 2) (SCREEN_HEIGHT div 2)"
  assume q: "q \<in> set (player_trace ?p calls)"
  have size: "rect_width (rect q) = PLAYER_SIZE" "rect_height (rect q) = PLAYER_SIZE"
    using player_trace_size [OF q] by (simp_all add: Player_init_size)
  have "0 \<le> rect_left (rect q) \<and> rect_left (rect q) + PLAYER_SIZE \<le> SCREEN_WIDTH
       \<and> 0 \<le> rect_top (rect q) \<and> rect_top (rect q) + PLAYER_SIZE \<le> SCREEN_HEIGHT"
    using player_trace_inside [OF Player_init_size q] .
  then show "0 \<le> rect_left (rect q) \<and> rect_left (rect q) + rect_width (rect q) \<le> SCREEN_WIDTH
     \<and> 0 \<le> rect_top (rect q) \<and> rect_top (rect q) + rect_height (rect q) \<le> SCREEN_HEIGHT"
    by (simp add: size)
qed

text \<open>
  At the centre, ten seconds of right and down push the rectangle to the bottom right
  corner, where the clamp holds it; a second call leaves it there.
\<close>

theorem Player_update_containment_witness:
  "Player_update (Player_init (SCREEN_WIDTH div 2) (SCREEN_HEIGHT div 2)) 10 right_down_keys
     \<in> set (player_trace (Player_init (SCREEN_WIDTH div 2) (SCREEN_HEIGHT div 2))
              [(10, right_down_keys), (1 / 60, no_keys)])
   \<and> rect (Player_update (Player_init (SCREEN_WIDTH div 2) (SCREEN_HEIGHT div 2)) 10
              right_down_keys)
       = \<lparr>rect_left = 760, rect_top = 560, rect_width = 40, rect_height = 40\<rparr>
   \<and> 0 \<le> rect_left (rect (Player_update (Player_init (SCREEN_WIDTH div 2)
                (SCREEN_HEIGHT div 2)) 10 right_down_keys))
   \<and> rect_left (rect (Player_update (Player_init (SCREEN_WIDTH div 2)
                (SCREEN_HEIGHT div 2)) 10 right_down_keys))
       + rect_width (rect (Player_update (Player_init (SCREEN_WIDTH div 2)
                (SCREEN_HEIGHT div 2)) 10 right_down_keys)) \<le> SCREEN_WIDTH
   \<and> 0 \<le> rect_top (rect (Player_update (Player_init (SCREEN_WIDTH div 2)
                (SCREEN_HEIGHT div 2)) 10 right_down_keys))
   \<and> rect_top (rect (Player_update (Player_init (SCREEN_WIDTH div 2)
                (SCREEN_HEIGHT div 2)) 10 right_down_keys))
       + rect_height (rect (Player_update (Player_init (SCREEN_WIDTH div 2)
                (SCREEN_HEIGHT div 2)) 10 right_down_keys)) \<le> SCREEN_HEIGHT"
proof -
  let ?q = "Player_update (Player_init (SCREEN_WIDTH div 2) (SCREEN_HEIGHT div 2)) 10
              right_down_keys"
  have m: "?q \<in> set (player_trace (Player_init (SCREEN_WIDTH div 2) (SCREEN_HEIGHT div 2))
              [(10, right_down_keys), (1 / 60, no_keys)])"
    by simp
  have r: "rect ?q = \<lparr>rect_left = 760, rect_top = 560, rect_width = 40, rect_height = 40\<rparr>"
    by (simp add: Player_update_def Let_def Player_init_def rect_set_center_def
        right_down_keys_def py_int_def clamp_def split del: if_split)
  from Player_update_containment [of "[(10, right_down_keys), (1 / 60, no_keys)]",
      THEN bspec, OF m] m r
  show ?thesis by simp
qed

text \<open>
  C10: \<^verbatim>\<open>Player.update\<close> moves the rectangle and leaves its size alone, for every \<open>dt\<close>
  and every key state; so along any sequence of updates of a player made by
  \<^verbatim>\<open>Player.__init__\<close> the rectangle stays 40 wide and 40 high.
\<close>

theorem Player_update_keeps_size:
  "rect_width (rect (Player_update p dt ks)) = rect_width (rect p)
   \<and> rect_height (rect (Player_update p dt ks)) = rect_height (rect p)
   \<and> (\<forall>q \<in> set (player_trace (Player_init x y) calls).
         rect_width (rect q) = PLAYER_SIZE \<and> rect_height (rect q) = PLAYER_SIZE)"
proof (intro conjI ballI)
  show "rect_width (rect (Player_update p dt ks)) = rect_width (rect p)"
    by (rule Player_update_size)
  show "rect_height (rect (Player_update p dt ks)) = rect_height (rect p)"
    by (rule Player_update_size)
next
  fix q
  assume q: "q \<in> set (player_trace (Player_init x y) calls)"
  show "rect_width (rect q) = PLAYER_SIZE"
    using player_trace_size [OF q] by (simp add: Player_init_size)
  show "rect_height (rect q) = PLAYER_SIZE"
    using player_trace_size [OF q] by (simp add: Player_init_size)
qed

theorem Player_update_keeps_size_witness:
  "Player_update (Player_init 400 300) (1 / 2) right_down_keys
     \<in> set (player_trace (Player_init 400 300) [(1 / 2, right_down_keys)])
   \<and> rect (Player_init 400 300)
       = \<lparr>rect_left = 380, rect_top = 280, rect_width = 40, rect_height = 40\<rparr>
   \<and> rect (Player_update (Player_init 400 300) (1 / 2) right_down_keys)
       = \<lparr>rect_left = 486, rect_top = 386, rect_width = 40, rect_height = 40\<rparr>
   \<and> rect_width (rect (Player_update (Player_init 400 300) (1 / 2) right_down_keys))
       = PLAYER_SIZE
   \<and> rect_height (rect (Player_update (Player_init 400 300) (1 / 2) right_down_keys))
       = PLAYER_SIZE"
proof -
  let ?q = "Player_update (Player_init 400 300) (1 / 2) right_down_keys"
  have m: "?q \<in> set (player_trace (Player_init 400 300) [(1 / 2, right_down_keys)])"
    by simp
  have i: "rect (Player_init 400 300)
       = \<lparr>rect_left = 380, rect_top = 280, rect_width = 40, rect_height = 40\<rparr>"
    by (simp add: Player_init_def rect_set_center_def)
  have r: "rect ?q = \<lparr>rect_left = 486, rect_top = 386, rect_width = 40, rect_height = 40\<rparr>"
    by (simp add: Player_update_def Let_def Player_init_def rect_set_center_def
        right_down_keys_def py_int_def clamp_def split del: if_split)
  from Player_update_keeps_size [of "Player_init 400 300" "1 / 2" right_down_keys
      400 300 "[(1 / 2, right_down_keys)]", THEN conjunct2, THEN conjunct2, THEN bspec, OF m]
    m i r
  show ?thesis by simp
qed

section \<open>Enemy\<close>

lemma Enemy_update_velocity:
  "(enemy_vx (Enemy_update e dt))\<^sup>2 = (enemy_vx e)\<^sup>2"
  "(enemy_vy (Enemy_update e dt))\<^sup>2 = (enemy_vy e)\<^sup>2"
  by (simp_all add: Enemy_update_def Let_def)

lemma Enemy_update_inside:
  "25 \<le> enemy_x (Enemy_update e dt)" "enemy_x (Enemy_update e dt) \<le> 775"
  "25 \<le> enemy_y (Enemy_update e dt)" "enemy_y (Enemy_update e dt) \<le> 575"
  by (simp_all add: Enemy_update_def Let_def)

lemma enemy_trace_velocity:
  "e' \<in> set (enemy_trace e dts) \<Longrightarrow>
     (enemy_vx e')\<^sup>2 = (enemy_vx e)\<^sup>2 \<and> (enemy_vy e')\<^sup>2 = (enemy_vy e)\<^sup>2"
proof (induction dts arbitrary: e)
  case Nil
  then show ?case by simp
next
  case (Cons dt dts)
  from Cons.prems
  have "e' = Enemy_update e dt \<or> e' \<in> set (enemy_trace (Enemy_update e dt) dts)"
    by simp
  then show ?case
  proof
    assume "e' = Enemy_update e dt"
    then show ?thesis by (simp add: Enemy_update_velocity)
  next
    assume "e' \<in> set (enemy_trace (Enemy_update e dt) dts)"
    from Cons.IH [OF this] show ?thesis by (simp add: Enemy_update_velocity)
  qed
qed

lemma enemy_trace_inside:
  "e' \<in> set (enemy_trace e dts) \<Longrightarrow>
     25 \<le> enemy_x e' \<and> enemy_x e' \<le> 775 \<and> 25 \<le> enemy_y e' \<and> enemy_y e' \<le> 575"
proof (induction dts arbitrary: e)
  case Nil
  then show ?case by simp
next
  case (Cons dt dts)
  from Cons.prems
  have "e' = Enemy_update e dt \<or> e' \<in> set (enemy_trace (Enemy_update e dt) dts)"
    by simp
  then show ?case
  proof
    assume "e' = Enemy_update e dt"
    then show ?thesis by (simp add: Enemy_update_inside)
  next
    assume "e' \<in> set (enemy_trace (Enemy_update e dt) dts)"
    from Cons.IH [OF this] show ?thesis .
  qed
qed

text \<open>
  C6: along any sequence of \<^verbatim>\<open>Enemy.update\<close> calls the speed \<open>sqrt (vx\<^sup>2 + vy\<^sup>2)\<close> after
  each call is the speed before the first one. The calls only ever multiply a velocity
  component by \<open>- 1\<close>. This holds for every \<open>dt\<close> and every velocity, so in particular
  for \<open>dt \<ge> 0\<close> and a non-degenerate speed.
\<close>

theorem Enemy_update_speed_invariant:
  "\<forall>e' \<in> set (enemy_trace e dts).
     sqrt ((enemy_vx e')\<^sup>2 + (enemy_vy e')\<^sup>2) = sqrt ((enemy_vx e)\<^sup>2 + (enemy_vy e)\<^sup>2)
     \<and> \<bar>enemy_vx e'\<bar> = \<bar>enemy_vx e\<bar> \<and> \<bar>enemy_vy e'\<bar> = \<bar>enemy_vy e\<bar>"
proof
  fix e'
  assume "e' \<in> set (enemy_trace e dts)"
  then have sq: "(enemy_vx e')\<^sup>2 = (enemy_vx e)\<^sup>2" "(enemy_vy e')\<^sup>2 = (enemy_vy e)\<^sup>2"
    using enemy_trace_velocity by blast+
  from sq have "\<bar>enemy_vx e'\<bar> = \<bar>enemy_vx e\<bar>" "\<bar>enemy_vy e'\<bar> = \<bar>enemy_vy e\<bar>"
    by (simp_all add: power2_eq_iff abs_eq_iff)
  with sq show "sqrt ((enemy_vx e')\<^sup>2 + (enemy_vy e')\<^sup>2) = sqrt ((enemy_vx e)\<^sup>2 + (enemy_vy e)\<^sup>2)
     \<and> \<bar>enemy_vx e'\<bar> = \<bar>enemy_vx e\<bar> \<and> \<bar>enemy_vy e'\<bar> = \<bar>enemy_vy e\<bar>"
    by simp
qed

text \<open>
  An enemy of speed 180 near the top right corner: one second later it has bounced off
  both walls, and both velocity components have changed sign.
\<close>

theorem Enemy_update_speed_invariant_witness:
  "Enemy_update sample_enemy 1 \<in> set (enemy_trace sample_enemy [1, 1 / 60])
   \<and> Enemy_update sample_enemy 1
       = \<lparr>enemy_x = 775, enemy_y = 25, enemy_vx = - 108, enemy_vy = 144\<rparr>
   \<and> sqrt ((enemy_vx sample_enemy)\<^sup>2 + (enemy_vy sample_enemy)\<^sup>2) = 180
   \<and> sqrt ((enemy_vx (Enemy_update sample_enemy 1))\<^sup>2
            + (enemy_vy (Enemy_update sample_enemy 1))\<^sup>2) = 180"
proof -
  have m: "Enemy_update sample_enemy 1 \<in> set (enemy_trace sample_enemy [1, 1 / 60])"
    by simp
  have u: "Enemy_update sample_enemy 1
       = \<lparr>enemy_x = 775, enemy_y = 25, enemy_vx = - 108, enemy_vy = 144\<rparr>"
    by (simp add: Enemy_update_def Let_def sample_enemy_def)
  have "sqrt ((108::real)\<^sup>2 + (- 144)\<^sup>2) = 180"
    by (rule real_sqrt_unique) simp_all
  then have s: "sqrt ((enemy_vx sample_enemy)\<^sup>2 + (enemy_vy sample_enemy)\<^sup>2) = 180"
    by (simp add: sample_enemy_def)
  from Enemy_update_speed_invariant [of sample_enemy "[1, 1 / 60]", THEN bspec, OF m]
  have "sqrt ((enemy_vx (Enemy_update sample_enemy 1))\<^sup>2
            + (enemy_vy (Enemy_update sample_enemy 1))\<^sup>2) = 180"
    by (simp only: s)
  with m u s show ?thesis by simp
qed

text \<open>
  C7: after each call of any sequence of \<^verbatim>\<open>Enemy.update\<close> calls the centre has
  \<open>25 \<le> x \<le> 775\<close> and \<open>25 \<le> y \<le> 575\<close>. The two clamps of each axis establish this
  from any position and for every \<open>dt\<close>, so in particular from a centre inside those
  bounds and for \<open>dt \<ge> 0\<close>.
\<close>

theorem Enemy_update_containment:
  "\<forall>e' \<in> set (enemy_trace e dts).
     of_int ENEMY_RADIUS \<le> enemy_x e' \<and> enemy_x e' \<le> of_int (SCREEN_WIDTH - ENEMY_RADIUS)
     \<and> of_int ENEMY_RADIUS \<le> enemy_y e' \<and> enemy_y e' \<le> of_int (SCREEN_HEIGHT - ENEMY_RADIUS)"
proof
  fix e'
  assume "e' \<in> set (enemy_trace e dts)"
  from enemy_trace_inside [OF this]
  show "of_int ENEMY_RADIUS \<le> enemy_x e' \<and> enemy_x e' \<le> of_int (SCREEN_WIDTH - ENEMY_RADIUS)
     \<and> of_int ENEMY_RADIUS \<le> enemy_y e' \<and> enemy_y e' \<le> of_int (SCREEN_HEIGHT - ENEMY_RADIUS)"
    by simp
qed

theorem Enemy_update_containment_witness:
  "Enemy_update sample_enemy (1 / 2) \<in> set (enemy_trace sample_enemy [1 / 2, 3])
   \<and> Enemy_update sample_enemy (1 / 2)
       = \<lparr>enemy_x = 754, enemy_y = 28, enemy_vx = 108, enemy_vy = - 144\<rparr>
   \<and> 25 \<le> enemy_x (Enemy_update sample_enemy (1 / 2))
   \<and> enemy_x (Enemy_update sample_enemy (1 / 2)) \<le> 775
   \<and> 25 \<le> enemy_y (Enemy_update sample_enemy (1 / 2))
   \<and> enemy_y (Enemy_update sample_enemy (1 / 2)) \<le> 575"
proof -
  have m: "Enemy_update sample_enemy (1 / 2) \<in> set (enemy_trace sample_enemy [1 / 2, 3])"
    by simp
  have u: "Enemy_update sample_enemy (1 / 2)
       = \<lparr>enemy_x = 754, enemy_y = 28, enemy_vx = 108, enemy_vy = - 144\<rparr>"
    by (simp add: Enemy_update_def Let_def sample_enemy_def)
  from Enemy_update_containment [of sample_enemy "[1 / 2, 3]", THEN bspec, OF m] m u
  show ?thesis by simp
qed

section \<open>The per-frame update\<close>

lemma Coin_respawn_eq:
  "Coin_respawn c g =
     (c\<lparr>coin_x := 20 + int (shd g mod 761), coin_y := 20 + int (shd (stl g) mod 561),
        collected := False\<rparr>, stl (stl g))"
  by (simp add: Coin_respawn_def randint_def Let_def)

lemma respawn_all_length: "length (fst (respawn_all cs g)) = length cs"
  by (induction cs arbitrary: g) (simp_all add: Coin_respawn_eq case_prod_beta)

lemma respawn_all_rng: "snd (respawn_all cs g) = sdrop (2 * length cs) g"
  by (induction cs arbitrary: g) (simp_all add: Coin_respawn_eq case_prod_beta)

lemma respawn_all_nth:
  "i < length cs \<Longrightarrow>
     fst (respawn_all cs g) ! i =
       (cs ! i)\<lparr>coin_x := 20 + int (snth g (2 * i) mod 761),
                coin_y := 20 + int (snth g (2 * i + 1) mod 561), collected := False\<rparr>"
proof (induction cs arbitrary: g i)
  case Nil
  then show ?case by simp
next
  case (Cons c cs)
  show ?case
  proof (cases i)
    case 0
    then show ?thesis by (simp add: Coin_respawn_eq case_prod_beta)
  next
    case (Suc j)
    with Cons.prems have "j < length cs" by simp
    from Cons.IH [OF this, of "stl (stl g)"] Suc show ?thesis
      by (simp add: Coin_respawn_eq case_prod_beta)
  qed
qed

lemma update_frame_playing:
  assumes "\<not> game_over s" and "\<not> game_won s"
  shows "player (update_frame dt ks s) = Player_update (player s) dt ks"
    and "enemy (update_frame dt ks s) = Enemy_update (enemy s) dt"
    and "elapsed_survival (update_frame dt ks s) = elapsed_survival s + dt"
    and "time_left (update_frame dt ks s) = time_left s - dt"
    and "score (update_frame dt ks s) =
           py_int (elapsed_survival s + dt) + int (length (filter collected (coins s)))"
  using assms by (simp_all add: update_frame_def Let_def case_prod_beta split del: if_split)

lemma update_frame_coins:
  assumes "\<not> game_over s" and "\<not> game_won s"
  shows "(coins (update_frame dt ks s), rng (update_frame dt ks s)) =
           (if list_all collected (map (collect_coin (Player_update (player s) dt ks)) (coins s))
            then respawn_all (map (collect_coin (Player_update (player s) dt ks)) (coins s)) (rng s)
            else (map (collect_coin (Player_update (player s) dt ks)) (coins s), rng s))"
  using assms by (simp add: update_frame_def Let_def case_prod_beta split del: if_split)

lemma update_frame_flags:
  assumes "\<not> game_over s" and "\<not> game_won s"
  shows "game_over (update_frame dt ks s) =
           (rect_circle_collide (rect (Player_update (player s) dt ks))
              (enemy_x (Enemy_update (enemy s) dt), enemy_y (Enemy_update (enemy s) dt))
              (of_int ENEMY_RADIUS)
            \<or> (time_left s - dt \<le> 0 \<and> score (update_frame dt ks s) < WIN_SCORE))"
    and "game_won (update_frame dt ks s) = (WIN_SCORE \<le> score (update_frame dt ks s))"
  using assms by (auto simp add: update_frame_def Let_def case_prod_beta split del: if_split split: if_splits)

lemma Player_update_no_keys:
  "Player_update p dt no_keys =
     p\<lparr>rect := (rect p)\<lparr>rect_left := clamp (rect_left (rect p)) 0 (SCREEN_WIDTH - rect_width (rect p)),
                         rect_top := clamp (rect_top (rect p)) 0 (SCREEN_HEIGHT - rect_height (rect p))\<rparr>\<rparr>"
  by (simp add: Player_update_def Let_def no_keys_def py_int_def)

lemma moved_player_update: "Player_update moved_player dt no_keys = moved_player"
  by (simp add: Player_update_no_keys moved_player_def clamp_def)

lemma sample_enemy_step:
  "Enemy_update sample_enemy (2 / 125) =
     \<lparr>enemy_x = 701728 / 1000, enemy_y = 97696 / 1000, enemy_vx = 108, enemy_vy = - 144\<rparr>"
  by (simp add: Enemy_update_def Let_def sample_enemy_def)

lemma sample_enemy_misses:
  "\<not> rect_circle_collide (rect (Player_update moved_player (2 / 125) no_keys))
       (enemy_x (Enemy_update sample_enemy (2 / 125)),
        enemy_y (Enemy_update sample_enemy (2 / 125))) (of_int ENEMY_RADIUS)"
  by (simp add: moved_player_update sample_enemy_step)
     (simp add: moved_player_def rect_circle_collide_def Let_def clamp_def rect_right_def
        rect_bottom_def)

subsection \<open>Collision and win in the same frame\<close>

lemma tie_player: "Player_update (player tie_session) (17 / 1000) no_keys =
   \<lparr>rect = \<lparr>rect_left = 380, rect_top = 280, rect_width = 40, rect_height = 40\<rparr>\<rparr>"
  by (simp add: Player_update_no_keys tie_session_def Player_init_def rect_set_center_def clamp_def)

lemma tie_enemy: "Enemy_update (enemy tie_session) (17 / 1000) =
   \<lparr>enemy_x = 44294 / 100, enemy_y = 300, enemy_vx = - 180, enemy_vy = 0\<rparr>"
  by (simp add: Enemy_update_def Let_def tie_session_def)

lemma tie_collide: "rect_circle_collide (rect (Player_update (player tie_session) (17 / 1000) no_keys))
          (enemy_x (Enemy_update (enemy tie_session) (17 / 1000)),
           enemy_y (Enemy_update (enemy tie_session) (17 / 1000))) (of_int ENEMY_RADIUS)"
  by (simp add: tie_player tie_enemy rect_circle_collide_def Let_def clamp_def rect_right_def rect_bottom_def)

lemma tie_score: "score (update_frame (17 / 1000) no_keys tie_session) = 20"
  by (simp add: update_frame_playing tie_session_def far_coins_def py_int_def)

text \<open>
  C1: a frame played while neither flag is set, in which the player and the enemy overlap
  and the score is at least 20, should end as lost and not as won. At \<open>tie_session\<close>,
  with a frame of 17 milliseconds and no key held, the overlap test is true and the score
  is 20; the frame sets \<^verbatim>\<open>game_over\<close> and then, in the last test of the loop body,
  \<^verbatim>\<open>game_won\<close> as well. The session ends with both flags set.
\<close>

theorem collision_at_win_score_sets_both_flags:
  "\<not> game_over tie_session \<and> \<not> game_won tie_session
   \<and> rect_circle_collide (rect (player (update_frame (17 / 1000) no_keys tie_session)))
        (enemy_x (enemy (update_frame (17 / 1000) no_keys tie_session)),
         enemy_y (enemy (update_frame (17 / 1000) no_keys tie_session))) (of_int ENEMY_RADIUS)
   \<and> score (update_frame (17 / 1000) no_keys tie_session) = 20
   \<and> game_over (update_frame (17 / 1000) no_keys tie_session)
   \<and> game_won (update_frame (17 / 1000) no_keys tie_session)"
proof -
  have p: "\<not> game_over tie_session" "\<not> game_won tie_session"
    by (simp_all add: tie_session_def)
  show ?thesis
    using tie_collide tie_score p
    by (simp add: update_frame_flags [OF p] update_frame_playing(1,2) [OF p])
qed

subsection \<open>The score formula\<close>

text \<open>
  C2, as the code has it: after a frame played while neither flag is set (and the elapsed
  time is not negative), the score is the floor of the elapsed time after the frame plus
  the number of coins that were collected when the frame began. The score is computed
  before the coins of this frame are collected and before a full batch respawns.
\<close>

theorem score_derivation_amended:
  assumes "\<not> game_over s" and "\<not> game_won s" and "0 \<le> elapsed_survival s + dt"
  shows "score (update_frame dt ks s) =
           \<lfloor>elapsed_survival (update_frame dt ks s)\<rfloor>
             + int (length (filter collected (coins s)))"
  using assms(3) by (simp add: update_frame_playing [OF assms(1,2)] py_int_def)

lemma lag_coins: "coins (update_frame (2 / 125) no_keys lag_session) =
      [\<lparr>coin_x = 120, coin_y = 130, collected = True\<rparr>,
               \<lparr>coin_x = 700, coin_y = 100, collected = False\<rparr>,
               \<lparr>coin_x = 100, coin_y = 500, collected = False\<rparr>,
               \<lparr>coin_x = 700, coin_y = 500, collected = False\<rparr>,
               \<lparr>coin_x = 400, coin_y = 100, collected = False\<rparr>]"
proof -
  have p: "\<not> game_over lag_session" "\<not> game_won lag_session"
    by (simp_all add: lag_session_def)
  have "player lag_session = moved_player" by (simp add: lag_session_def)
  then have "map (collect_coin (Player_update (player lag_session) (2 / 125) no_keys)) (coins lag_session)
     = [\<lparr>coin_x = 120, coin_y = 130, collected = True\<rparr>,
               \<lparr>coin_x = 700, coin_y = 100, collected = False\<rparr>,
               \<lparr>coin_x = 100, coin_y = 500, collected = False\<rparr>,
               \<lparr>coin_x = 700, coin_y = 500, collected = False\<rparr>,
               \<lparr>coin_x = 400, coin_y = 100, collected = False\<rparr>]"
    by (simp add: moved_player_update)
       (simp add: lag_session_def moved_player_def collect_coin_def Let_def
           rect_centerx_def rect_centery_def)
  with update_frame_coins [OF p, of "2 / 125" no_keys] show ?thesis
    by simp
qed

text \<open>
  C2 as stated, with the collected flags after the frame, fails at \<open>lag_session\<close>: the
  frame collects the first coin, the score stays 3 and the formula gives 4.
\<close>

theorem score_derivation_counterexample:
  "\<not> game_over lag_session \<and> \<not> game_won lag_session
   \<and> score (update_frame (2 / 125) no_keys lag_session) = 3
   \<and> \<lfloor>elapsed_survival (update_frame (2 / 125) no_keys lag_session)\<rfloor> = 3
   \<and> length (filter collected (coins (update_frame (2 / 125) no_keys lag_session))) = 1
   \<and> score (update_frame (2 / 125) no_keys lag_session) \<noteq>
       \<lfloor>elapsed_survival (update_frame (2 / 125) no_keys lag_session)\<rfloor>
         + int (length (filter collected (coins (update_frame (2 / 125) no_keys lag_session))))"
proof -
  have p: "\<not> game_over lag_session" "\<not> game_won lag_session"
    by (simp_all add: lag_session_def)
  have sc: "score (update_frame (2 / 125) no_keys lag_session) = 3"
    by (simp add: update_frame_playing lag_session_def py_int_def)
  have el: "\<lfloor>elapsed_survival (update_frame (2 / 125) no_keys lag_session)\<rfloor> = 3"
    by (simp add: update_frame_playing lag_session_def)
  show ?thesis
    using p by (simp add: sc el lag_coins)
qed

text \<open>At \<open>lag_session\<close> no coin is collected when the frame begins.\<close>

theorem score_derivation_amended_witness:
  "\<not> game_over lag_session \<and> \<not> game_won lag_session
   \<and> 0 \<le> elapsed_survival lag_session + 2 / 125
   \<and> length (filter collected (coins lag_session)) = 0
   \<and> score (update_frame (2 / 125) no_keys lag_session) =
       \<lfloor>elapsed_survival (update_frame (2 / 125) no_keys lag_session)\<rfloor> + 0"
proof -
  have p: "\<not> game_over lag_session" "\<not> game_won lag_session"
    and e: "0 \<le> elapsed_survival lag_session + 2 / 125"
    and n: "length (filter collected (coins lag_session)) = 0"
    by (simp_all add: lag_session_def)
  from score_derivation_amended [OF p e, of no_keys] n p e show ?thesis
    by simp
qed

subsection \<open>Respawn of the whole batch\<close>

lemma batch_collected:
  "map (collect_coin (Player_update (player batch_session) (2 / 125) no_keys)) (coins batch_session)
     = [\<lparr>coin_x = 120, coin_y = 130, collected = True\<rparr>,
        \<lparr>coin_x = 700, coin_y = 100, collected = True\<rparr>,
        \<lparr>coin_x = 100, coin_y = 500, collected = True\<rparr>,
        \<lparr>coin_x = 700, coin_y = 500, collected = True\<rparr>,
        \<lparr>coin_x = 400, coin_y = 100, collected = True\<rparr>]"
proof -
  have "player batch_session = moved_player" by (simp add: batch_session_def)
  then show ?thesis
    by (simp add: moved_player_update)
       (simp add: batch_session_def moved_player_def collect_coin_def Let_def
           rect_centerx_def rect_centery_def)
qed

lemma batch_coins: "coins (update_frame (2 / 125) no_keys batch_session) =
      [\<lparr>coin_x = 331, coin_y = 227, collected = False\<rparr>,
       \<lparr>coin_x = 65, coin_y = 538, collected = False\<rparr>,
       \<lparr>coin_x = 719, coin_y = 32, collected = False\<rparr>,
       \<lparr>coin_x = 420, coin_y = 353, collected = False\<rparr>,
       \<lparr>coin_x = 110, coin_y = 500, collected = False\<rparr>]"
proof -
  have p: "\<not> game_over batch_session" "\<not> game_won batch_session"
    by (simp_all add: batch_session_def)
  have r: "rng batch_session = [311, 207, 45, 518, 699, 12, 400, 333, 90, 480] @- sconst 0"
    by (simp add: batch_session_def)
  have "fst (coins (update_frame (2 / 125) no_keys batch_session),
             rng (update_frame (2 / 125) no_keys batch_session)) =
      [\<lparr>coin_x = 331, coin_y = 227, collected = False\<rparr>,
       \<lparr>coin_x = 65, coin_y = 538, collected = False\<rparr>,
       \<lparr>coin_x = 719, coin_y = 32, collected = False\<rparr>,
       \<lparr>coin_x = 420, coin_y = 353, collected = False\<rparr>,
       \<lparr>coin_x = 110, coin_y = 500, collected = False\<rparr>]"
    unfolding update_frame_coins [OF p] batch_collected r
    by (simp add: Coin_respawn_eq case_prod_beta)
  then show ?thesis by simp
qed

text \<open>
  C3, as the code has it: in a frame played while neither flag is set, if every coin is
  collected once the collection loop has run, then at the end of the frame every coin
  reports \<open>collected = False\<close> at a position drawn from the random source (two draws
  for each coin, in order), and the score of the frame counts exactly the coins that
  were collected when the frame began: those collected during the frame are not counted.
\<close>

theorem batch_respawn_amended:
  assumes "\<not> game_over s" and "\<not> game_won s"
    and "list_all collected
           (map (collect_coin (Player_update (player s) dt ks)) (coins s))"
  shows "length (coins (update_frame dt ks s)) = length (coins s)
    \<and> (\<forall>i < length (coins s).
          \<not> collected (coins (update_frame dt ks s) ! i)
          \<and> coin_x (coins (update_frame dt ks s) ! i) = 20 + int (snth (rng s) (2 * i) mod 761)
          \<and> coin_y (coins (update_frame dt ks s) ! i)
              = 20 + int (snth (rng s) (2 * i + 1) mod 561))
    \<and> rng (update_frame dt ks s) = sdrop (2 * length (coins s)) (rng s)
    \<and> score (update_frame dt ks s) =
         py_int (elapsed_survival (update_frame dt ks s))
           + int (length (filter collected (coins s)))"
proof -
  let ?cs = "map (collect_coin (Player_update (player s) dt ks)) (coins s)"
  have "(coins (update_frame dt ks s), rng (update_frame dt ks s)) = respawn_all ?cs (rng s)"
    using update_frame_coins [OF assms(1,2), of dt ks] assms(3) by simp
  then have c: "coins (update_frame dt ks s) = fst (respawn_all ?cs (rng s))"
    and g: "rng (update_frame dt ks s) = snd (respawn_all ?cs (rng s))"
    by (simp_all add: prod_eq_iff)
  have len: "length (coins (update_frame dt ks s)) = length (coins s)"
    by (simp add: c respawn_all_length)
  have nth: "\<forall>i < length (coins s).
          \<not> collected (coins (update_frame dt ks s) ! i)
          \<and> coin_x (coins (update_frame dt ks s) ! i) = 20 + int (snth (rng s) (2 * i) mod 761)
          \<and> coin_y (coins (update_frame dt ks s) ! i)
              = 20 + int (snth (rng s) (2 * i + 1) mod 561)"
    by (simp add: c respawn_all_nth)
  have r: "rng (update_frame dt ks s) = sdrop (2 * length (coins s)) (rng s)"
    by (simp add: g respawn_all_rng)
  have sc: "score (update_frame dt ks s) =
         py_int (elapsed_survival (update_frame dt ks s))
           + int (length (filter collected (coins s)))"
    by (simp add: update_frame_playing [OF assms(1,2)])
  from len nth r sc show ?thesis by blast
qed

text \<open>
  C3 as stated, with a score that includes the five coins collected for a moment, fails
  at \<open>batch_session\<close>: the fifth coin is collected in the frame, all five respawn, and
  the score is the floor of the elapsed time plus 4, not plus 5.
\<close>

theorem batch_respawn_counterexample:
  "\<not> game_over batch_session \<and> \<not> game_won batch_session
   \<and> length (coins batch_session) = 5
   \<and> list_all collected
        (map (collect_coin (Player_update (player batch_session) (2 / 125) no_keys))
           (coins batch_session))
   \<and> filter collected (coins (update_frame (2 / 125) no_keys batch_session)) = []
   \<and> score (update_frame (2 / 125) no_keys batch_session) =
        \<lfloor>elapsed_survival (update_frame (2 / 125) no_keys batch_session)\<rfloor> + 4
   \<and> score (update_frame (2 / 125) no_keys batch_session) \<noteq>
        \<lfloor>elapsed_survival (update_frame (2 / 125) no_keys batch_session)\<rfloor> + 5"
proof -
  have p: "\<not> game_over batch_session" "\<not> game_won batch_session"
    and l: "length (coins batch_session) = 5"
    by (simp_all add: batch_session_def)
  have sc: "score (update_frame (2 / 125) no_keys batch_session) = 7"
    by (simp add: update_frame_playing batch_session_def py_int_def)
  have el: "\<lfloor>elapsed_survival (update_frame (2 / 125) no_keys batch_session)\<rfloor> = 3"
    by (simp add: update_frame_playing batch_session_def)
  show ?thesis
    using p l by (simp add: sc el batch_coins batch_collected)
qed

text \<open>At \<open>batch_session\<close> the five coins respawn at the positions the stream gives.\<close>

theorem batch_respawn_amended_witness:
  "\<not> game_over batch_session \<and> \<not> game_won batch_session
   \<and> list_all collected
        (map (collect_coin (Player_update (player batch_session) (2 / 125) no_keys))
           (coins batch_session))
   \<and> coins (update_frame (2 / 125) no_keys batch_session) =
      [\<lparr>coin_x = 331, coin_y = 227, collected = False\<rparr>,
       \<lparr>coin_x = 65, coin_y = 538, collected = False\<rparr>,
       \<lparr>coin_x = 719, coin_y = 32, collected = False\<rparr>,
       \<lparr>coin_x = 420, coin_y = 353, collected = False\<rparr>,
       \<lparr>coin_x = 110, coin_y = 500, collected = False\<rparr>]
   \<and> length (filter collected (coins batch_session)) = 4
   \<and> score (update_frame (2 / 125) no_keys batch_session) =
        py_int (elapsed_survival (update_frame (2 / 125) no_keys batch_session)) + 4"
proof -
  have p: "\<not> game_over batch_session" "\<not> game_won batch_session"
    and n: "length (filter collected (coins batch_session)) = 4"
    by (simp_all add: batch_session_def)
  have a: "list_all collected
        (map (collect_coin (Player_update (player batch_session) (2 / 125) no_keys))
           (coins batch_session))"
    by (simp add: batch_collected)
  from batch_respawn_amended [OF p a] p a n show ?thesis
    by (simp add: batch_coins)
qed

subsection \<open>Timeout\<close>

text \<open>
  C4: in a frame played while neither flag is set, in which the player and the enemy do
  not overlap and the time left is at most 0 after the decrement, the session is won
  (and not lost) if the score of the frame is at least 20, and lost (and not won) if it
  is below 20.
\<close>

theorem timeout_outcome:
  assumes "\<not> game_over s" and "\<not> game_won s"
    and "\<not> rect_circle_collide (rect (Player_update (player s) dt ks))
             (enemy_x (Enemy_update (enemy s) dt), enemy_y (Enemy_update (enemy s) dt))
             (of_int ENEMY_RADIUS)"
    and "time_left s - dt \<le> 0"
  shows "(WIN_SCORE \<le> score (update_frame dt ks s) \<longrightarrow>
            game_won (update_frame dt ks s) \<and> \<not> game_over (update_frame dt ks s))
       \<and> (score (update_frame dt ks s) < WIN_SCORE \<longrightarrow>
            game_over (update_frame dt ks s) \<and> \<not> game_won (update_frame dt ks s))"
  using assms(3,4) by (auto simp add: update_frame_flags [OF assms(1,2)])

text \<open>A timeout at score 5 is lost, a timeout at score 25 is won.\<close>

theorem timeout_outcome_witness:
  "score (update_frame (2 / 125) no_keys timeout_loss_session) = 5
   \<and> time_left timeout_loss_session - 2 / 125 \<le> 0
   \<and> game_over (update_frame (2 / 125) no_keys timeout_loss_session)
   \<and> \<not> game_won (update_frame (2 / 125) no_keys timeout_loss_session)
   \<and> score (update_frame (2 / 125) no_keys timeout_win_session) = 25
   \<and> time_left timeout_win_session - 2 / 125 \<le> 0
   \<and> game_won (update_frame (2 / 125) no_keys timeout_win_session)
   \<and> \<not> game_over (update_frame (2 / 125) no_keys timeout_win_session)"
proof -
  have pl: "\<not> game_over timeout_loss_session" "\<not> game_won timeout_loss_session"
    and tl: "time_left timeout_loss_session - 2 / 125 \<le> 0"
    by (simp_all add: timeout_loss_session_def)
  have cl: "\<not> rect_circle_collide
               (rect (Player_update (player timeout_loss_session) (2 / 125) no_keys))
               (enemy_x (Enemy_update (enemy timeout_loss_session) (2 / 125)),
                enemy_y (Enemy_update (enemy timeout_loss_session) (2 / 125)))
               (of_int ENEMY_RADIUS)"
    using sample_enemy_misses by (simp add: timeout_loss_session_def)
  have sl: "score (update_frame (2 / 125) no_keys timeout_loss_session) = 5"
    by (simp add: update_frame_playing timeout_loss_session_def far_coins_def py_int_def)
  have pw: "\<not> game_over timeout_win_session" "\<not> game_won timeout_win_session"
    and tw: "time_left timeout_win_session - 2 / 125 \<le> 0"
    by (simp_all add: timeout_win_session_def)
  have cw: "\<not> rect_circle_collide
               (rect (Player_update (player timeout_win_session) (2 / 125) no_keys))
               (enemy_x (Enemy_update (enemy timeout_win_session) (2 / 125)),
                enemy_y (Enemy_update (enemy timeout_win_session) (2 / 125)))
               (of_int ENEMY_RADIUS)"
    using sample_enemy_misses by (simp add: timeout_win_session_def)
  have sw: "score (update_frame (2 / 125) no_keys timeout_win_session) = 25"
    by (simp add: update_frame_playing timeout_win_session_def py_int_def)
  from timeout_outcome [OF pl cl tl] timeout_outcome [OF pw cw tw] sl sw tl tw
  show ?thesis by simp
qed

section \<open>Restart\<close>

lemma Coin_respawn_stream: "snd (Coin_respawn c g) = sdrop 2 g"
  by (simp add: Coin_respawn_eq numeral_2_eq_2)

lemma too_close_respawn:
  "too_close p (fst (Coin_respawn c g)) = too_close p (fst (Coin_init g))"
  by (simp add: Coin_respawn_eq Coin_init_def too_close_def)

lemma fix_coin_far: "\<not> too_close p c \<Longrightarrow> fix_coin p c g = Some (c, g)"
  by (subst fix_coin.simps) simp

lemma fix_coin_near:
  "too_close p c \<Longrightarrow>
     fix_coin p c g = fix_coin p (fst (Coin_respawn c g)) (snd (Coin_respawn c g))"
  by (subst fix_coin.simps) simp

lemma fix_coin_not_too_close:
  assumes "fix_coin p c g = Some y"
  shows "\<not> too_close p (fst y)"
  by (rule fix_coin.raw_induct [where P = "\<lambda>p c g y. \<not> too_close p (fst y)", OF _ assms])
     (auto split: if_splits)

lemma fix_coin_stream:
  assumes "fix_coin p c g = Some y"
  shows "\<exists>m. snd y = sdrop m g"
proof (rule fix_coin.raw_induct [where P = "\<lambda>p c g y. \<exists>m. snd y = sdrop m g", OF _ assms])
  fix f p c g y
  assume IH: "\<And>p c g y. f p c g = Some y \<Longrightarrow> \<exists>m. snd y = sdrop m g"
    and body: "(if too_close p c
                then f p (fst (Coin_respawn c g)) (snd (Coin_respawn c g))
                else Some (c, g)) = Some y"
  show "\<exists>m. snd y = sdrop m g"
  proof (cases "too_close p c")
    case True
    with body have "f p (fst (Coin_respawn c g)) (snd (Coin_respawn c g)) = Some y"
      by simp
    from IH [OF this] obtain m where "snd y = sdrop m (snd (Coin_respawn c g))" ..
    then have "snd y = sdrop (2 + m) g"
      by (simp add: Coin_respawn_stream sdrop_add)
    then show ?thesis ..
  next
    case False
    with body have "snd y = sdrop 0 g" by auto
    then show ?thesis ..
  qed
qed

lemma fix_coin_returns:
  "\<not> too_close p (fst (Coin_init (sdrop (2 * n) g))) \<Longrightarrow> \<exists>y. fix_coin p c g = Some y"
proof (induction n arbitrary: c g)
  case 0
  show ?case
  proof (cases "too_close p c")
    case False
    then show ?thesis by (subst fix_coin.simps) simp
  next
    case True
    from 0 have "\<not> too_close p (fst (Coin_respawn c g))"
      by (simp add: too_close_respawn)
    then have "fix_coin p (fst (Coin_respawn c g)) (snd (Coin_respawn c g))
                 = Some (fst (Coin_respawn c g), snd (Coin_respawn c g))"
      by (subst fix_coin.simps) simp
    with True show ?thesis by (subst fix_coin.simps) simp
  qed
next
  case (Suc n)
  show ?case
  proof (cases "too_close p c")
    case False
    then show ?thesis by (subst fix_coin.simps) simp
  next
    case True
    from Suc.prems have "\<not> too_close p (fst (Coin_init (sdrop (2 * n) (snd (Coin_respawn c g)))))"
      by (simp add: Coin_respawn_eq)
    from Suc.IH [OF this]
    obtain y where "fix_coin p (fst (Coin_respawn c g)) (snd (Coin_respawn c g)) = Some y"
      by blast
    with True show ?thesis by (subst fix_coin.simps) simp
  qed
qed

lemma rng_fair_sdrop: "rng_fair p g \<Longrightarrow> rng_fair p (sdrop m g)"
  unfolding rng_fair_def
proof
  fix k
  assume a: "\<forall>k. \<exists>n. \<not> too_close p (fst (Coin_init (sdrop (k + 2 * n) g)))"
  then obtain n where "\<not> too_close p (fst (Coin_init (sdrop ((m + k) + 2 * n) g)))"
    by blast
  then have "\<not> too_close p (fst (Coin_init (sdrop (k + 2 * n) (sdrop m g))))"
    by (simp add: sdrop_add add.assoc)
  then show "\<exists>n. \<not> too_close p (fst (Coin_init (sdrop (k + 2 * n) (sdrop m g))))" ..
qed

lemma fix_coins_initial_returns:
  "rng_fair p g \<Longrightarrow> \<exists>y. fix_coins_initial p cs g = Some y"
proof (induction cs arbitrary: g)
  case Nil
  then show ?case by simp
next
  case (Cons c cs)
  from Cons.prems obtain n where "\<not> too_close p (fst (Coin_init (sdrop (0 + 2 * n) g)))"
    unfolding rng_fair_def by blast
  then have "\<exists>y. fix_coin p c g = Some y"
    using fix_coin_returns [of p n g c] by simp
  then obtain c' g1 where f: "fix_coin p c g = Some (c', g1)"
    by auto
  from fix_coin_stream [OF f] obtain m where "g1 = sdrop m g"
    by auto
  with Cons.prems have "rng_fair p g1"
    by (simp add: rng_fair_sdrop)
  from Cons.IH [OF this] obtain cs' g2 where "fix_coins_initial p cs g1 = Some (cs', g2)"
    by auto
  with f show ?case by simp
qed

lemma fix_coins_initial_not_too_close:
  "fix_coins_initial p cs g = Some y \<Longrightarrow> \<forall>c \<in> set (fst y). \<not> too_close p c"
proof (induction cs arbitrary: g y)
  case Nil
  then show ?case by auto
next
  case (Cons c cs)
  from Cons.prems obtain c' g1 cs' g2
    where f: "fix_coin p c g = Some (c', g1)"
      and r: "fix_coins_initial p cs g1 = Some (cs', g2)"
      and y: "y = (c' # cs', g2)"
    by (auto split: option.splits)
  from fix_coin_not_too_close [OF f] have "\<not> too_close p c'" by simp
  moreover from Cons.IH [OF r] have "\<forall>c \<in> set cs'. \<not> too_close p c" by simp
  ultimately show ?case by (simp add: y)
qed

lemma fix_coins_initial_length:
  "fix_coins_initial p cs g = Some y \<Longrightarrow> length (fst y) = length cs"
  by (induction cs arbitrary: g y) (auto split: option.splits)

lemma Enemy_init_rng: "snd (Enemy_init g) = sdrop 3 g"
proof -
  have "sdrop 3 g = stl (stl (stl g))"
    by (simp add: numeral_3_eq_3)
  then show ?thesis
    by (simp add: Enemy_init_def randint_def py_random_def Let_def)
qed

lemma make_coins_rng: "snd (make_coins n g) = sdrop (2 * n) g"
  by (induction n arbitrary: g) (simp_all add: Coin_init_def Coin_respawn_eq case_prod_beta)

lemma make_coins_length: "length (fst (make_coins n g)) = n"
  by (induction n arbitrary: g) (simp_all add: case_prod_beta)

lemma make_coins_five:
  "make_coins NUM_COINS g = make_coins (Suc (Suc (Suc (Suc (Suc 0))))) g"
  by (simp add: eval_nat_numeral)

lemma sdrop_sconst: "sdrop n (sconst x) = sconst x"
  by (induction n) simp_all

lemma new_game_returns:
  assumes "rng_fair (Player_init (SCREEN_WIDTH div 2) (SCREEN_HEIGHT div 2)) g"
  shows "\<exists>s'. new_game g = Some s'"
proof -
  let ?p = "Player_init (SCREEN_WIDTH div 2) (SCREEN_HEIGHT div 2)"
  let ?g1 = "snd (Enemy_init g)"
  let ?g2 = "snd (make_coins NUM_COINS ?g1)"
  have "rng_fair ?p ?g2"
    using assms by (simp only: Enemy_init_rng make_coins_rng rng_fair_sdrop)
  from fix_coins_initial_returns [OF this]
  obtain y where "fix_coins_initial ?p (fst (make_coins NUM_COINS ?g1)) ?g2 = Some y"
    by blast
  then show ?thesis
    by (simp add: new_game_def Let_def case_prod_beta)
qed

lemma new_game_result:
  assumes "new_game g = Some s'"
  shows "score s' = 0" and "elapsed_survival s' = 0" and "time_left s' = of_int START_TIME"
    and "\<not> game_over s'" and "\<not> game_won s'"
    and "player s' = Player_init (SCREEN_WIDTH div 2) (SCREEN_HEIGHT div 2)"
    and "length (coins s') = NUM_COINS"
    and "\<forall>c \<in> set (coins s'). \<not> too_close (Player_init (SCREEN_WIDTH div 2) (SCREEN_HEIGHT div 2)) c"
proof -
  let ?p = "Player_init (SCREEN_WIDTH div 2) (SCREEN_HEIGHT div 2)"
  let ?g1 = "snd (Enemy_init g)"
  let ?cs = "fst (make_coins NUM_COINS ?g1)"
  let ?g2 = "snd (make_coins NUM_COINS ?g1)"
  from assms obtain y where f: "fix_coins_initial ?p ?cs ?g2 = Some y"
    and s': "s' = \<lparr>player = ?p, enemy = fst (Enemy_init g), coins = fst y, score = 0,
                   elapsed_survival = 0, time_left = of_int START_TIME, game_over = False,
                   game_won = False, rng = snd y\<rparr>"
    by (auto simp add: new_game_def Let_def case_prod_beta split: option.splits)
  show "score s' = 0" "elapsed_survival s' = 0" "time_left s' = of_int START_TIME"
    "\<not> game_over s'" "\<not> game_won s'" "player s' = ?p"
    by (simp_all add: s')
  show "length (coins s') = NUM_COINS"
    using fix_coins_initial_length [OF f] by (simp add: s' make_coins_length)
  show "\<forall>c \<in> set (coins s'). \<not> too_close ?p c"
    using fix_coins_initial_not_too_close [OF f] by (simp add: s')
qed

lemma Player_init_center:
  "rect_centerx (rect (Player_init x y)) = x" "rect_centery (rect (Player_init x y)) = y"
  by (simp_all add: Player_init_def rect_set_center_def rect_centerx_def rect_centery_def)

text \<open>
  C8: when \<^verbatim>\<open>game_over\<close> or \<^verbatim>\<open>game_won\<close> is set and the restart key arrives, the
  session that results has score 0, elapsed time 0, 45 seconds left, both flags cleared,
  the player centred at (400, 300), five coins, and no coin within 60 pixels of the
  player's centre on both axes. The restart returns on every fair random source; the
  properties hold of whatever it returns.
\<close>

theorem restart_resets:
  assumes "game_over s \<or> game_won s"
  shows "(rng_fair (Player_init (SCREEN_WIDTH div 2) (SCREEN_HEIGHT div 2)) (rng s) \<longrightarrow>
            (\<exists>s'. restart s = Some s'))
       \<and> (\<forall>s'. restart s = Some s' \<longrightarrow>
            score s' = 0 \<and> elapsed_survival s' = 0 \<and> time_left s' = 45
            \<and> \<not> game_over s' \<and> \<not> game_won s'
            \<and> rect_centerx (rect (player s')) = 400 \<and> rect_centery (rect (player s')) = 300
            \<and> length (coins s') = NUM_COINS
            \<and> (\<forall>c \<in> set (coins s'). \<not> (\<bar>coin_x c - 400\<bar> < 60 \<and> \<bar>coin_y c - 300\<bar> < 60)))"
proof (intro conjI impI allI)
  assume "rng_fair (Player_init (SCREEN_WIDTH div 2) (SCREEN_HEIGHT div 2)) (rng s)"
  from new_game_returns [OF this] show "\<exists>s'. restart s = Some s'"
    using assms by (simp add: restart_def)
next
  fix s'
  assume "restart s = Some s'"
  with assms have n: "new_game (rng s) = Some s'"
    by (simp add: restart_def)
  note r = new_game_result [OF n]
  show "score s' = 0" "elapsed_survival s' = 0" "\<not> game_over s'" "\<not> game_won s'"
    "length (coins s') = NUM_COINS"
    by (rule r)+
  show "time_left s' = 45"
    using r(3) by simp
  show "rect_centerx (rect (player s')) = 400" "rect_centery (rect (player s')) = 300"
    by (simp_all add: r(6) Player_init_center)
  show "\<forall>c \<in> set (coins s'). \<not> (\<bar>coin_x c - 400\<bar> < 60 \<and> \<bar>coin_y c - 300\<bar> < 60)"
    using r(8) by (simp add: too_close_def Player_init_center)
qed

lemma lost_session_fair:
  "rng_fair (Player_init (SCREEN_WIDTH div 2) (SCREEN_HEIGHT div 2)) (rng lost_session)"
  unfolding rng_fair_def
proof
  fix k :: nat
  have gen: "sdrop (k + 2 * 8) (w @- sconst 0) = sconst (0::nat)" if "length w = 15" for w
    using that by (simp add: sdrop_shift sdrop_sconst)
  have "sdrop (k + 2 * 8) (rng lost_session) = sconst 0"
    using gen [of "[0, 0, 0, 380, 280, 100, 200, 300, 400, 500, 100, 700, 500, 55, 66]"]
    by (simp add: lost_session_def)
  then have "\<not> too_close (Player_init (SCREEN_WIDTH div 2) (SCREEN_HEIGHT div 2))
               (fst (Coin_init (sdrop (k + 2 * 8) (rng lost_session))))"
    by (simp add: Coin_init_def Coin_respawn_eq too_close_def Player_init_center)
  then show "\<exists>n. \<not> too_close (Player_init (SCREEN_WIDTH div 2) (SCREEN_HEIGHT div 2))
               (fst (Coin_init (sdrop (k + 2 * n) (rng lost_session))))" ..
qed

lemma lost_enemy:
  "Enemy_init ([0, 0, 0, 380, 280, 100, 200, 300, 400, 500, 100, 700, 500, 55, 66] @- sconst 0)
     = (\<lparr>enemy_x = 25, enemy_y = 25, enemy_vx = 180, enemy_vy = 0\<rparr>,
        [380, 280, 100, 200, 300, 400, 500, 100, 700, 500, 55, 66] @- sconst 0)"
  by (simp add: Enemy_init_def randint_def py_random_def Let_def)

lemma lost_coins:
  "make_coins NUM_COINS
       ([380, 280, 100, 200, 300, 400, 500, 100, 700, 500, 55, 66] @- sconst 0)
     = ([\<lparr>coin_x = 400, coin_y = 300, collected = False\<rparr>,
         \<lparr>coin_x = 120, coin_y = 220, collected = False\<rparr>,
         \<lparr>coin_x = 320, coin_y = 420, collected = False\<rparr>,
         \<lparr>coin_x = 520, coin_y = 120, collected = False\<rparr>,
         \<lparr>coin_x = 720, coin_y = 520, collected = False\<rparr>], [55, 66] @- sconst 0)"
  by (simp add: make_coins_five Coin_init_def Coin_respawn_eq Let_def)

lemma lost_fix:
  "fix_coins_initial (Player_init (SCREEN_WIDTH div 2) (SCREEN_HEIGHT div 2))
        [\<lparr>coin_x = 400, coin_y = 300, collected = False\<rparr>,
         \<lparr>coin_x = 120, coin_y = 220, collected = False\<rparr>,
         \<lparr>coin_x = 320, coin_y = 420, collected = False\<rparr>,
         \<lparr>coin_x = 520, coin_y = 120, collected = False\<rparr>,
         \<lparr>coin_x = 720, coin_y = 520, collected = False\<rparr>] ([55, 66] @- sconst 0)
     = Some ([\<lparr>coin_x = 75, coin_y = 86, collected = False\<rparr>,
         \<lparr>coin_x = 120, coin_y = 220, collected = False\<rparr>,
         \<lparr>coin_x = 320, coin_y = 420, collected = False\<rparr>,
         \<lparr>coin_x = 520, coin_y = 120, collected = False\<rparr>,
         \<lparr>coin_x = 720, coin_y = 520, collected = False\<rparr>], sconst 0)"
  by (simp add: fix_coin_far fix_coin_near too_close_def Player_init_center Coin_respawn_eq)

lemma lost_session_restart:
  "restart lost_session =
     Some \<lparr>player = \<lparr>rect = \<lparr>rect_left = 380, rect_top = 280, rect_width = 40,
                               rect_height = 40\<rparr>\<rparr>,
           enemy = \<lparr>enemy_x = 25, enemy_y = 25, enemy_vx = 180, enemy_vy = 0\<rparr>,
           coins = [\<lparr>coin_x = 75, coin_y = 86, collected = False\<rparr>,
                    \<lparr>coin_x = 120, coin_y = 220, collected = False\<rparr>,
                    \<lparr>coin_x = 320, coin_y = 420, collected = False\<rparr>,
                    \<lparr>coin_x = 520, coin_y = 120, collected = False\<rparr>,
                    \<lparr>coin_x = 720, coin_y = 520, collected = False\<rparr>],
           score = 0, elapsed_survival = 0, time_left = 45, game_over = False,
           game_won = False, rng = sconst 0\<rparr>"
proof -
  have g: "game_over lost_session"
    and r: "rng lost_session =
      [0, 0, 0, 380, 280, 100, 200, 300, 400, 500, 100, 700, 500, 55, 66] @- sconst 0"
    by (simp_all add: lost_session_def)
  have "restart lost_session = new_game (rng lost_session)"
    using g by (simp add: restart_def)
  also have "\<dots> = Some \<lparr>player = Player_init (SCREEN_WIDTH div 2) (SCREEN_HEIGHT div 2),
           enemy = \<lparr>enemy_x = 25, enemy_y = 25, enemy_vx = 180, enemy_vy = 0\<rparr>,
           coins = [\<lparr>coin_x = 75, coin_y = 86, collected = False\<rparr>,
                    \<lparr>coin_x = 120, coin_y = 220, collected = False\<rparr>,
                    \<lparr>coin_x = 320, coin_y = 420, collected = False\<rparr>,
                    \<lparr>coin_x = 520, coin_y = 120, collected = False\<rparr>,
                    \<lparr>coin_x = 720, coin_y = 520, collected = False\<rparr>],
           score = 0, elapsed_survival = 0, time_left = 45, game_over = False,
           game_won = False, rng = sconst 0\<rparr>"
    unfolding r new_game_def lost_enemy Let_def prod.case lost_coins lost_fix option.case
    by simp
  finally show ?thesis
    by (simp add: Player_init_def rect_set_center_def)
qed

text \<open>
  At \<open>lost_session\<close> the first coin is drawn on the centre of the screen and moved by
  the placement loop to (75, 86).
\<close>

theorem restart_resets_witness:
  "(game_over lost_session \<or> game_won lost_session)
   \<and> rng_fair (Player_init (SCREEN_WIDTH div 2) (SCREEN_HEIGHT div 2)) (rng lost_session)
   \<and> restart lost_session =
     Some \<lparr>player = \<lparr>rect = \<lparr>rect_left = 380, rect_top = 280, rect_width = 40,
                               rect_height = 40\<rparr>\<rparr>,
           enemy = \<lparr>enemy_x = 25, enemy_y = 25, enemy_vx = 180, enemy_vy = 0\<rparr>,
           coins = [\<lparr>coin_x = 75, coin_y = 86, collected = False\<rparr>,
                    \<lparr>coin_x = 120, coin_y = 220, collected = False\<rparr>,
                    \<lparr>coin_x = 320, coin_y = 420, collected = False\<rparr>,
                    \<lparr>coin_x = 520, coin_y = 120, collected = False\<rparr>,
                    \<lparr>coin_x = 720, coin_y = 520, collected = False\<rparr>],
           score = 0, elapsed_survival = 0, time_left = 45, game_over = False,
           game_won = False, rng = sconst 0\<rparr>"
proof -
  have l: "game_over lost_session \<or> game_won lost_session"
    by (simp add: lost_session_def)
  from restart_resets [OF l] l lost_session_fair lost_session_restart
  show ?thesis by simp
qed

end
